theory Spec2Isabelle
  imports Main "HOL-Library.Word" "HOL-Library.Char_ord" "HOL-Library.List_Lexorder"
begin

section \<open>Go strings and the formatting verbs the codec uses\<close>

text \<open>
  A Go string is a sequence of bytes; it is modelled as a \<^typ>\<open>string\<close> (a list of 8-bit
  characters). \<open>sort.Strings\<close> orders strings bytewise and lexicographically, which is the
  order \<open>Char_ord\<close> and \<open>List_Lexorder\<close> give to \<^typ>\<open>string\<close>, so it is
  \<^const>\<open>sort\<close> below.
\<close>

definition NL :: char where
  "NL = CHR 0x0A"

definition DQ :: char where
  "DQ = CHR 0x22"

definition BSL :: char where
  "BSL = CHR 0x5C"

definition byte :: "char \<Rightarrow> nat" where
  "byte c = of_char c"

text \<open>\<open>strings.Join(elems, sep)\<close>.\<close>

fun Join :: "string list \<Rightarrow> string \<Rightarrow> string" where
  "Join [] sep = []"
| "Join [x] sep = x"
| "Join (x # y # r) sep = x @ sep @ Join (y # r) sep"

text \<open>The verb \<open>%d\<close> on an integer: decimal digits, a leading \<open>-\<close> when negative.\<close>

definition digitChar :: "nat \<Rightarrow> char" where
  "digitChar d = char_of (48 + d)"

fun digits10 :: "nat \<Rightarrow> string" where
  "digits10 n = (if n < 10 then [digitChar n] else digits10 (n div 10) @ [digitChar (n mod 10)])"

declare digits10.simps [simp del]

definition fmt_d :: "int \<Rightarrow> string" where
  "fmt_d i = (if i < 0 then CHR ''-'' # digits10 (nat (- i)) else digits10 (nat i))"

text \<open>The verb \<open>%t\<close> on a boolean.\<close>

definition fmt_t :: "bool \<Rightarrow> string" where
  "fmt_t b = (if b then ''true'' else ''false'')"

text \<open>
  The verb \<open>%q\<close> on a string is \<open>strconv.Quote\<close>. The quote and the backslash are
  always escaped with a backslash; a printable ASCII byte is copied; the control bytes
  7 to 13 have their letter escapes; every other byte below \<open>0x20\<close> and the byte
  \<open>0x7f\<close> is written \<open>\xhh\<close>. A byte from \<open>0x80\<close> on is written \<open>\xhh\<close> too,
  which is what Go does when the byte does not begin a valid UTF-8 sequence; for a valid
  multi-byte sequence Go consults its Unicode tables (\<open>unicode.IsPrint\<close>), which are not part
  of this development. The definition is therefore exact on strings of bytes below
  \<open>0x80\<close>, and the theorems that depend on the quoted text of a string are stated for
  such strings.
\<close>

definition lowerhex :: "nat \<Rightarrow> char" where
  "lowerhex d = ''0123456789abcdef'' ! (d mod 16)"

definition quoteByte :: "char \<Rightarrow> string" where
  "quoteByte c =
     (if c = DQ \<or> c = BSL then [BSL, c]
      else if 0x20 \<le> byte c \<and> byte c < 0x7F then [c]
      else if byte c = 7 then [BSL, CHR ''a'']
      else if byte c = 8 then [BSL, CHR ''b'']
      else if byte c = 12 then [BSL, CHR ''f'']
      else if byte c = 10 then [BSL, CHR ''n'']
      else if byte c = 13 then [BSL, CHR ''r'']
      else if byte c = 9 then [BSL, CHR ''t'']
      else if byte c = 11 then [BSL, CHR ''v'']
      else [BSL, CHR ''x'', lowerhex (byte c div 16), lowerhex (byte c mod 16)])"

definition fmt_q :: "string \<Rightarrow> string" where
  "fmt_q s = DQ # concat (map quoteByte s) @ [DQ]"

text \<open>
  A \<open>float64\<close> is kept as the decimal text that denotes it. Floating-point arithmetic is
  not modelled: \<open>%g\<close> writes the text out and \<open>strconv.ParseFloat\<close> keeps the lexeme it is
  given. No theorem below depends on the numeric value of a float.
\<close>

datatype float64 = Float64 string

fun fmt_g :: "float64 \<Rightarrow> string" where
  "fmt_g (Float64 s) = s"

section \<open>Values\<close>

text \<open>
  The codec works on \<open>interface{}\<close> values of the shapes \<open>encoding/json\<close> produces:
  \<open>nil\<close>, \<open>bool\<close>, integers (widened to \<open>int64\<close> by \<open>reflect.Value.Int\<close>), floats, strings,
  \<open>map[string]interface{}\<close> and \<open>[]interface{}\<close>. A map is an association list read
  through \<^const>\<open>map_of\<close>: the first binding of a key is the map's binding, and the order
  of the list carries no meaning.
\<close>

datatype Value =
    VNull
  | VBool bool
  | VInt "64 word"
  | VFloat float64
  | VString string
  | VObject "(string \<times> Value) list"
  | VArray "Value list"

text \<open>\<open>for k := range m\<close>: the keys of a map, each once.\<close>

definition mapKeys :: "(string \<times> Value) list \<Rightarrow> string list" where
  "mapKeys m = remdups (map fst m)"

text \<open>\<open>m[k]\<close>: the value bound to \<open>k\<close>, and \<open>nil\<close> when there is none.\<close>

definition mapIndex :: "(string \<times> Value) list \<Rightarrow> string \<Rightarrow> Value" where
  "mapIndex m k = (case map_of m k of Some v \<Rightarrow> v | None \<Rightarrow> VNull)"

text \<open>\<open>_, exists := m[k]\<close>.\<close>

definition mapHas :: "(string \<times> Value) list \<Rightarrow> string \<Rightarrow> bool" where
  "mapHas m k = (map_of m k \<noteq> None)"

text \<open>
  \<open>item.(map[string]interface{})\<close>: the map and \<open>ok\<close>. When the assertion fails the map is
  \<open>nil\<close>, which reads as the empty map.
\<close>

fun asMap :: "Value \<Rightarrow> (string \<times> Value) list \<times> bool" where
  "asMap (VObject m) = (m, True)"
| "asMap v = ([], False)"

section \<open>Options\<close>

record Options =
  IndentSize :: int
  Delimiter :: string
  UseTabular :: bool
  KeyFolding :: bool
  ShowArraySizes :: bool

definition DefaultOptions :: Options where
  "DefaultOptions =
     \<lparr>IndentSize = 2, Delimiter = '', '', UseTabular = True, KeyFolding = True,
      ShowArraySizes = True\<rparr>"

section \<open>The tabular eligibility detector\<close>

fun commonKeysLoop :: "string list \<Rightarrow> Value list \<Rightarrow> string list" where
  "commonKeysLoop commonKeys [] = commonKeys"
| "commonKeysLoop commonKeys (item # items) =
     (let commonKeys' = filter (\<lambda>k. mapHas (fst (asMap item)) k) commonKeys
      in if length commonKeys' = 0 then commonKeys' else commonKeysLoop commonKeys' items)"

fun getCommonKeys :: "Value list \<Rightarrow> string list" where
  "getCommonKeys [] = []"
| "getCommonKeys (first # items) = sort (commonKeysLoop (mapKeys (fst (asMap first))) items)"

definition canUseTabularFormat :: "Value list \<Rightarrow> bool" where
  "canUseTabularFormat elems =
     (if length elems = 0 then False
      else if \<not> list_all (\<lambda>item. snd (asMap item)) elems then False
      else length (getCommonKeys elems) > 0)"

section \<open>The encoder\<close>

datatype error = Panic string | Errorf string

definition writeIndent :: "int \<Rightarrow> Options \<Rightarrow> error + string" where
  "writeIndent indent options =
     (if indent < 0 then Inl (Panic ''strings: negative Repeat count'')
      else Inr (replicate (nat indent) CHR '' ''))"

lemma size_mapIndex: "size (mapIndex m k) \<le> size_list (size_prod (\<lambda>x. 0) size) m"
proof (induction m)
  case Nil
  show ?case by (simp add: mapIndex_def)
next
  case (Cons kv m)
  then show ?case by (cases kv) (auto simp: mapIndex_def split: option.splits)
qed

function fmt_v :: "Value \<Rightarrow> string" where
  "fmt_v VNull = ''<nil>''"
| "fmt_v (VBool b) = fmt_t b"
| "fmt_v (VInt i) = fmt_d (sint i)"
| "fmt_v (VFloat f) = fmt_g f"
| "fmt_v (VString s) = s"
| "fmt_v (VArray xs) = ''['' @ Join (map fmt_v xs) '' '' @ '']''"
| "fmt_v (VObject m) =
     ''map['' @ Join (map (\<lambda>k. k @ '':'' @ fmt_v (mapIndex m k)) (sort (mapKeys m))) '' '' @ '']''"
  by pat_completeness auto
termination
  by (relation "measure size") (auto simp: size_mapIndex less_Suc_eq_le intro: size_list_estimation')

fun formatValue :: "Value \<Rightarrow> string" where
  "formatValue (VString v) = fmt_q v"
| "formatValue (VBool v) = fmt_t v"
| "formatValue (VInt v) = fmt_d (sint v)"
| "formatValue (VFloat v) = fmt_g v"
| "formatValue VNull = ''null''"
| "formatValue v = fmt_v v"

fun encodeRows :: "Value list \<Rightarrow> string list \<Rightarrow> nat \<Rightarrow> nat \<Rightarrow> Options \<Rightarrow> int \<Rightarrow> error + string" where
  "encodeRows [] keys i n options indent = Inr []"
| "encodeRows (item # items) keys i n options indent =
     (case writeIndent (indent + IndentSize options) options of
        Inl e \<Rightarrow> Inl e
      | Inr s0 \<Rightarrow>
          (case encodeRows items keys (Suc i) n options indent of
             Inl e \<Rightarrow> Inl e
           | Inr rest \<Rightarrow>
               Inr (s0 @ Join (map (\<lambda>k. formatValue (mapIndex (fst (asMap item)) k)) keys) (Delimiter options)
                    @ (if int i < int n - 1 then [NL] else []) @ rest)))"

definition arrayOpen :: "Value list \<Rightarrow> Options \<Rightarrow> string" where
  "arrayOpen elems options =
     ''['' @ (if ShowArraySizes options then '' '' @ fmt_d (int (length elems)) @ '' '' else [])"

function encodeValue :: "Value \<Rightarrow> Options \<Rightarrow> int \<Rightarrow> error + string"
  and encodeMap :: "(string \<times> Value) list \<Rightarrow> Options \<Rightarrow> int \<Rightarrow> error + string"
  and encodeMapEntries :: "(string \<times> Value) list \<Rightarrow> string list \<Rightarrow> nat \<Rightarrow> Options \<Rightarrow> int \<Rightarrow> error + string"
  and encodeArray :: "Value list \<Rightarrow> Options \<Rightarrow> int \<Rightarrow> error + string"
  and encodeArrayItems :: "Value list \<Rightarrow> nat \<Rightarrow> nat \<Rightarrow> Options \<Rightarrow> int \<Rightarrow> error + string"
where
  "encodeValue (VObject m) options indent = encodeMap m options indent"
| "encodeValue (VArray elems) options indent = encodeArray elems options indent"
| "encodeValue (VString s) options indent = Inr (fmt_q s)"
| "encodeValue (VBool b) options indent = Inr (fmt_t b)"
| "encodeValue (VInt i) options indent = Inr (fmt_d (sint i))"
| "encodeValue (VFloat f) options indent = Inr (fmt_g f)"
| "encodeValue VNull options indent =
     Inl (Panic ''reflect: call of reflect.Value.CanInterface on zero Value'')"
| "encodeMap m options indent =
     (case writeIndent indent options of
        Inl e \<Rightarrow> Inl e
      | Inr s0 \<Rightarrow>
          (case encodeMapEntries m (sort (mapKeys m)) 0 options indent of
             Inl e \<Rightarrow> Inl e
           | Inr body \<Rightarrow>
               (case (if length (mapKeys m) > 0 then writeIndent indent options else Inr []) of
                  Inl e \<Rightarrow> Inl e
                | Inr s1 \<Rightarrow>
                    Inr (s0 @ ''{'' @ (if length (mapKeys m) > 0 then [NL] else []) @ body
                         @ s1 @ ''}''))))"
| "encodeMapEntries m [] i options indent = Inr []"
| "encodeMapEntries m (k # ks) i options indent =
     (case writeIndent (indent + IndentSize options) options of
        Inl e \<Rightarrow> Inl e
      | Inr s0 \<Rightarrow>
          (case encodeValue (mapIndex m k) options (indent + IndentSize options) of
             Inl e \<Rightarrow> Inl e
           | Inr sv \<Rightarrow>
               (case encodeMapEntries m ks (Suc i) options indent of
                  Inl e \<Rightarrow> Inl e
                | Inr rest \<Rightarrow>
                    Inr (s0 @ k @ '': '' @ sv
                         @ (if int i < int (length (mapKeys m)) - 1 then '','' else []) @ [NL]
                         @ rest))))"
| "encodeArray elems options indent =
     (if UseTabular options \<and> canUseTabularFormat elems then
        (case encodeRows elems (getCommonKeys elems) 0 (length elems) options indent of
           Inl e \<Rightarrow> Inl e
         | Inr rows \<Rightarrow>
             (case writeIndent indent options of
                Inl e \<Rightarrow> Inl e
              | Inr s1 \<Rightarrow>
                  Inr (arrayOpen elems options @ ''{''
                       @ Join (getCommonKeys elems) (Delimiter options) @ ''}:'' @ [NL]
                       @ rows @ [NL] @ s1 @ '']'')))
      else
        (case encodeArrayItems elems 0 (length elems) options indent of
           Inl e \<Rightarrow> Inl e
         | Inr items \<Rightarrow>
             (case (if length elems > 0 then writeIndent indent options else Inr []) of
                Inl e \<Rightarrow> Inl e
              | Inr s1 \<Rightarrow>
                  Inr (arrayOpen elems options @ (if length elems > 0 then [NL] else [])
                       @ items @ (if length elems > 0 then [NL] @ s1 else []) @ '']''))))"
| "encodeArrayItems [] i n options indent = Inr []"
| "encodeArrayItems (item # items) i n options indent =
     (case writeIndent (indent + IndentSize options) options of
        Inl e \<Rightarrow> Inl e
      | Inr s0 \<Rightarrow>
          (case encodeValue item options (indent + IndentSize options) of
             Inl e \<Rightarrow> Inl e
           | Inr sv \<Rightarrow>
               (case encodeArrayItems items (Suc i) n options indent of
                  Inl e \<Rightarrow> Inl e
                | Inr rest \<Rightarrow>
                    Inr (s0 @ sv @ (if int i < int n - 1 then '','' @ [NL] else []) @ rest))))"
  by pat_completeness auto
termination
  apply (relation "measures
    [(\<lambda>x. case x of
        Inl (Inl (v, _)) \<Rightarrow> size v
      | Inl (Inr (m, _)) \<Rightarrow> size (VObject m)
      | Inr (Inl (m, _)) \<Rightarrow> size (VObject m)
      | Inr (Inr (Inl (xs, _))) \<Rightarrow> size (VArray xs)
      | Inr (Inr (Inr (xs, _))) \<Rightarrow> size (VArray xs)),
     (\<lambda>x. case x of
        Inl (Inl (v, _)) \<Rightarrow> 2
      | Inl (Inr (m, _)) \<Rightarrow> 1
      | Inr (Inl (m, _)) \<Rightarrow> 0
      | Inr (Inr (Inl (xs, _))) \<Rightarrow> 1
      | Inr (Inr (Inr (xs, _))) \<Rightarrow> 0),
     (\<lambda>x. case x of
        Inr (Inl (m, ks, _)) \<Rightarrow> length ks
      | _ \<Rightarrow> 0)]")
  apply (auto simp: size_mapIndex less_Suc_eq_le)
  done

definition Encode :: "Value \<Rightarrow> Options \<Rightarrow> error + string" where
  "Encode data options = (if data = VNull then Inr [] else encodeValue data options 0)"

section \<open>The lexer\<close>

datatype tokenType =
    tokenEOF
  | tokenLBrace
  | tokenRBrace
  | tokenLBracket
  | tokenRBracket
  | tokenColon
  | tokenComma
  | tokenNumber
  | tokenString
  | tokenBoolean
  | tokenNull
  | tokenIdentifier
  | tokenColonColon
  | tokenSize

text \<open>The \<open>iota\<close> number of a token type, which is what \<open>%v\<close> prints for it.\<close>

fun tokenTypeNum :: "tokenType \<Rightarrow> nat" where
  "tokenTypeNum tokenEOF = 0"
| "tokenTypeNum tokenLBrace = 1"
| "tokenTypeNum tokenRBrace = 2"
| "tokenTypeNum tokenLBracket = 3"
| "tokenTypeNum tokenRBracket = 4"
| "tokenTypeNum tokenColon = 5"
| "tokenTypeNum tokenComma = 6"
| "tokenTypeNum tokenNumber = 7"
| "tokenTypeNum tokenString = 8"
| "tokenTypeNum tokenBoolean = 9"
| "tokenTypeNum tokenNull = 10"
| "tokenTypeNum tokenIdentifier = 11"
| "tokenTypeNum tokenColonColon = 12"
| "tokenTypeNum tokenSize = 13"

record token =
  tok_typ :: tokenType
  tok_value :: string
  tok_pos :: nat

record lexer =
  input :: string
  pos :: nat
  start :: nat
  width :: nat

definition newLexer :: "string \<Rightarrow> lexer" where
  "newLexer s = \<lparr>input = s, pos = 0, start = 0, width = 0\<rparr>"

text \<open>
  \<open>next\<close> reads one byte as a rune; \<open>None\<close> is the rune \<open>-1\<close> of the end of the input.
  A byte from \<open>0x80\<close> on is a rune between \<open>0x80\<close> and \<open>0xff\<close>, for which
  \<open>utf8.RuneLen\<close> is 2, cut to what is left of the input.
\<close>

definition nextRune :: "lexer \<Rightarrow> char option \<times> lexer" where
  "nextRune l =
     (if pos l \<ge> length (input l) then (None, l\<lparr>width := 0\<rparr>)
      else
        (let r = input l ! pos l;
             w = (if byte r \<ge> 0x80
                  then (if pos l + 2 > length (input l) then length (input l) - pos l else 2)
                  else 1)
         in (Some r, l\<lparr>pos := pos l + w, width := w\<rparr>)))"

definition backup :: "lexer \<Rightarrow> lexer" where
  "backup l = l\<lparr>pos := pos l - width l\<rparr>"

definition peekRune :: "lexer \<Rightarrow> char option \<times> lexer" where
  "peekRune l = (case nextRune l of (r, l') \<Rightarrow> (r, backup l'))"

definition emit :: "lexer \<Rightarrow> tokenType \<Rightarrow> token" where
  "emit l t =
     \<lparr>tok_typ = t, tok_value = take (pos l - start l) (drop (start l) (input l)),
      tok_pos = start l\<rparr>"

text \<open>\<open>unicode.IsSpace\<close> on a rune below \<open>0x100\<close>.\<close>

definition isSpace :: "char \<Rightarrow> bool" where
  "isSpace r = (byte r \<in> {9, 10, 11, 12, 13, 32, 0x85, 0xA0})"

definition isDigit :: "char \<Rightarrow> bool" where
  "isDigit c = (byte (CHR ''0'') \<le> byte c \<and> byte c \<le> byte (CHR ''9''))"

definition isAlpha :: "char \<Rightarrow> bool" where
  "isAlpha c =
     ((byte (CHR ''a'') \<le> byte c \<and> byte c \<le> byte (CHR ''z''))
      \<or> (byte (CHR ''A'') \<le> byte c \<and> byte c \<le> byte (CHR ''Z'')) \<or> c = CHR ''_'')"

definition isAlphaNumeric :: "char \<Rightarrow> bool" where
  "isAlphaNumeric c = (isAlpha c \<or> isDigit c)"

lemma nextRune_advances:
  "nextRune l = (Some r, l') \<Longrightarrow>
     input l' = input l \<and> pos l < pos l' \<and> pos l' \<le> length (input l)"
  by (auto simp: nextRune_def Let_def split: if_splits)

lemma nextRune_snd:
  "input (snd (nextRune l)) = input l \<and> pos l \<le> pos (snd (nextRune l))"
  by (auto simp: nextRune_def Let_def)

lemma nextRune_twice:
  assumes "nextRune l = (Some r, l')"
  shows "length (input (snd (nextRune l'))) - pos (snd (nextRune l')) < length (input l) - pos l"
  using nextRune_advances[OF assms] nextRune_snd[of l'] by auto

function skipWhitespace :: "lexer \<Rightarrow> lexer" where
  "skipWhitespace l =
     (case nextRune l of
        (None, l') \<Rightarrow> backup l'
      | (Some r, l') \<Rightarrow> if \<not> isSpace r then backup l' else skipWhitespace l')"
  by pat_completeness auto
termination
  by (relation "measure (\<lambda>l. length (input l) - pos l)")
     (auto dest!: nextRune_advances[OF sym])

declare skipWhitespace.simps [simp del]

function scanStringLoop :: "lexer \<Rightarrow> lexer" where
  "scanStringLoop l =
     (case nextRune l of
        (None, l') \<Rightarrow> l'
      | (Some r, l') \<Rightarrow>
          if r = DQ then l'
          else if r = BSL then scanStringLoop (snd (nextRune l'))
          else scanStringLoop l')"
  by pat_completeness auto
termination
  by (relation "measure (\<lambda>l. length (input l) - pos l)")
     (auto dest: nextRune_advances[OF sym] nextRune_twice[OF sym])

declare scanStringLoop.simps [simp del]

definition scanString :: "lexer \<Rightarrow> token \<times> lexer" where
  "scanString l = (let l' = scanStringLoop l in (emit l' tokenString, l'))"

function scanDigits :: "lexer \<Rightarrow> lexer" where
  "scanDigits l =
     (if pos l < length (input l) \<and> isDigit (input l ! pos l)
      then scanDigits (l\<lparr>pos := pos l + 1\<rparr>) else l)"
  by pat_completeness auto
termination
  by (relation "measure (\<lambda>l. length (input l) - pos l)") auto

declare scanDigits.simps [simp del]

definition scanNumber :: "lexer \<Rightarrow> token \<times> lexer" where
  "scanNumber l =
     (let l1 = (if input l ! (pos l - 1) = CHR ''-'' then snd (nextRune l) else l);
          l2 = scanDigits l1;
          l3 = (if pos l2 \<ge> length (input l2) then l2
                else
                  (let c = input l2 ! pos l2
                   in if c = CHR ''.'' then scanDigits (l2\<lparr>pos := pos l2 + 1\<rparr>)
                      else if c = CHR ''e'' \<or> c = CHR ''E'' then
                        (let l4 = l2\<lparr>pos := pos l2 + 1\<rparr>;
                             l5 = (if pos l4 < length (input l4)
                                      \<and> (input l4 ! pos l4 = CHR ''+'' \<or> input l4 ! pos l4 = CHR ''-'')
                                   then l4\<lparr>pos := pos l4 + 1\<rparr> else l4)
                         in scanDigits l5)
                      else l2))
      in (emit l3 tokenNumber, l3))"

function scanIdentifierLoop :: "lexer \<Rightarrow> lexer" where
  "scanIdentifierLoop l =
     (case nextRune l of
        (None, l') \<Rightarrow> backup l'
      | (Some r, l') \<Rightarrow> if \<not> isAlphaNumeric r then backup l' else scanIdentifierLoop l')"
  by pat_completeness auto
termination
  by (relation "measure (\<lambda>l. length (input l) - pos l)")
     (auto dest!: nextRune_advances[OF sym])

declare scanIdentifierLoop.simps [simp del]

definition scanIdentifier :: "lexer \<Rightarrow> token \<times> lexer" where
  "scanIdentifier l =
     (let l' = scanIdentifierLoop l;
          val = take (pos l' - start l') (drop (start l') (input l'))
      in if val = ''true'' \<or> val = ''false'' then (emit l' tokenBoolean, l')
         else if val = ''null'' then (emit l' tokenNull, l')
         else (emit l' tokenIdentifier, l'))"

definition nextToken :: "lexer \<Rightarrow> token \<times> lexer" where
  "nextToken l0 =
     (let l1 = skipWhitespace l0;
          l = l1\<lparr>start := pos l1\<rparr>
      in if pos l \<ge> length (input l) then (emit l tokenEOF, l)
         else
           (case nextRune l of
              (None, l') \<Rightarrow> (emit l' tokenEOF, l')
            | (Some c, l') \<Rightarrow>
                if c = CHR ''{'' then (emit l' tokenLBrace, l')
                else if c = CHR ''}'' then (emit l' tokenRBrace, l')
                else if c = CHR ''['' then (emit l' tokenLBracket, l')
                else if c = CHR '']'' then (emit l' tokenRBracket, l')
                else if c = CHR '':'' then
                  (case peekRune l' of
                     (r, l'') \<Rightarrow>
                       if r = Some (CHR '':'') then
                         (let l3 = snd (nextRune l'') in (emit l3 tokenColonColon, l3))
                       else (emit l'' tokenColon, l''))
                else if c = CHR '','' then (emit l' tokenComma, l')
                else if c = DQ then scanString l'
                else if c = CHR ''-'' \<or> isDigit c then scanNumber l'
                else if isAlpha c then scanIdentifier l'
                else (emit l' tokenEOF, l')))"

section \<open>The conversions of \<open>strconv\<close> the parser calls\<close>

definition unhex :: "char \<Rightarrow> nat option" where
  "unhex c =
     (if isDigit c then Some (byte c - byte (CHR ''0''))
      else if byte (CHR ''a'') \<le> byte c \<and> byte c \<le> byte (CHR ''f'') then Some (byte c - byte (CHR ''a'') + 10)
      else if byte (CHR ''A'') \<le> byte c \<and> byte c \<le> byte (CHR ''F'') then Some (byte c - byte (CHR ''A'') + 10)
      else None)"

fun hexValue :: "string \<Rightarrow> nat \<Rightarrow> nat option" where
  "hexValue [] v = Some v"
| "hexValue (c # s) v = (case unhex c of None \<Rightarrow> None | Some x \<Rightarrow> hexValue s (16 * v + x))"

definition isOctal :: "char \<Rightarrow> bool" where
  "isOctal c = (byte (CHR ''0'') \<le> byte c \<and> byte c \<le> byte (CHR ''7''))"

text \<open>\<open>utf8.ValidRune\<close> and \<open>utf8.AppendRune\<close> on a valid rune.\<close>

definition validRune :: "nat \<Rightarrow> bool" where
  "validRune v = (v < 0xD800 \<or> (0xDFFF < v \<and> v \<le> 0x10FFFF))"

definition appendRune :: "nat \<Rightarrow> string" where
  "appendRune v =
     (if v < 0x80 then [char_of v]
      else if v < 0x800 then [char_of (0xC0 + v div 64), char_of (0x80 + v mod 64)]
      else if v < 0x10000 then
        [char_of (0xE0 + v div 4096), char_of (0x80 + (v div 64) mod 64), char_of (0x80 + v mod 64)]
      else
        [char_of (0xF0 + v div 262144), char_of (0x80 + (v div 4096) mod 64),
         char_of (0x80 + (v div 64) mod 64), char_of (0x80 + v mod 64)])"

text \<open>
  \<open>utf8.DecodeRuneInString\<close>: the number of bytes of the UTF-8 sequence a string starts
  with, and 0 when it starts with none (Go then yields \<open>RuneError\<close> of width 1).
\<close>

definition inRange :: "nat \<Rightarrow> nat \<Rightarrow> string \<Rightarrow> nat \<Rightarrow> bool" where
  "inRange lo hi s i = (i < length s \<and> lo \<le> byte (s ! i) \<and> byte (s ! i) \<le> hi)"

definition utf8Size :: "string \<Rightarrow> nat" where
  "utf8Size s =
     (case s of
        [] \<Rightarrow> 0
      | c # _ \<Rightarrow>
          (let b = byte c in
           if b < 0x80 then 1
           else if b < 0xC2 then 0
           else if b \<le> 0xDF then (if inRange 0x80 0xBF s 1 then 2 else 0)
           else if b \<le> 0xEF then
             (if inRange (if b = 0xE0 then 0xA0 else 0x80) (if b = 0xED then 0x9F else 0xBF) s 1
                 \<and> inRange 0x80 0xBF s 2 then 3 else 0)
           else if b \<le> 0xF4 then
             (if inRange (if b = 0xF0 then 0x90 else 0x80) (if b = 0xF4 then 0x8F else 0xBF) s 1
                 \<and> inRange 0x80 0xBF s 2 \<and> inRange 0x80 0xBF s 3 then 4 else 0)
           else 0))"

text \<open>
  \<open>strconv.Unquote\<close> on a double-quoted literal, the only form the lexer hands over:
  \<open>None\<close> is \<open>ErrSyntax\<close>. The body is read up to the first quote that is not escaped,
  which must be the last byte; a raw newline is refused; a byte that does not begin a
  valid UTF-8 sequence becomes the encoding of \<open>U+FFFD\<close>.
\<close>

function unquoteBody :: "string \<Rightarrow> string \<Rightarrow> string option" where
  "unquoteBody [] buf = None"
| "unquoteBody (c # s) buf =
     (if c = DQ then (if s = [] then Some buf else None)
      else if c = NL then None
      else if byte c \<ge> 0x80 then
        (if utf8Size (c # s) = 0 then unquoteBody s (buf @ appendRune 0xFFFD)
         else unquoteBody (drop (utf8Size (c # s) - 1) s) (buf @ take (utf8Size (c # s)) (c # s)))
      else if c \<noteq> BSL then unquoteBody s (buf @ [c])
      else
        (case s of
           [] \<Rightarrow> None
         | e # s' \<Rightarrow>
             if e = CHR ''a'' then unquoteBody s' (buf @ [char_of (7::nat)])
             else if e = CHR ''b'' then unquoteBody s' (buf @ [char_of (8::nat)])
             else if e = CHR ''f'' then unquoteBody s' (buf @ [char_of (12::nat)])
             else if e = CHR ''n'' then unquoteBody s' (buf @ [char_of (10::nat)])
             else if e = CHR ''r'' then unquoteBody s' (buf @ [char_of (13::nat)])
             else if e = CHR ''t'' then unquoteBody s' (buf @ [char_of (9::nat)])
             else if e = CHR ''v'' then unquoteBody s' (buf @ [char_of (11::nat)])
             else if e = CHR ''x'' then
               (if length s' < 2 then None
                else (case hexValue (take 2 s') 0 of
                        None \<Rightarrow> None
                      | Some v \<Rightarrow> unquoteBody (drop 2 s') (buf @ [char_of v])))
             else if e = CHR ''u'' \<or> e = CHR ''U'' then
               (if length s' < (if e = CHR ''u'' then 4 else 8) then None
                else (case hexValue (take (if e = CHR ''u'' then 4 else 8) s') 0 of
                        None \<Rightarrow> None
                      | Some v \<Rightarrow>
                          if \<not> validRune v then None
                          else unquoteBody (drop (if e = CHR ''u'' then 4 else 8) s') (buf @ appendRune v)))
             else if isOctal e then
               (if length s' < 2 then None
                else if \<not> isOctal (s' ! 0) \<or> \<not> isOctal (s' ! 1) then None
                else
                  (let v = (byte e - 48) * 64 + (byte (s' ! 0) - 48) * 8 + (byte (s' ! 1) - 48)
                   in if v > 255 then None else unquoteBody (drop 2 s') (buf @ [char_of v])))
             else if e = BSL then unquoteBody s' (buf @ [BSL])
             else if e = DQ then unquoteBody s' (buf @ [DQ])
             else None))"
  by pat_completeness auto
termination
  by (relation "measure (\<lambda>(s, buf). length s)") auto

declare unquoteBody.simps [simp del]

definition Unquote :: "string \<Rightarrow> string option" where
  "Unquote s = (if length s < 2 \<or> hd s \<noteq> DQ then None else unquoteBody (tl s) [])"

text \<open>
  \<open>val, _ := strconv.ParseInt(s, 10, 64)\<close>: the value, which is 0 after a syntax error and
  the nearest bound of \<open>int64\<close> after a range error.
\<close>

definition digitsValue :: "string \<Rightarrow> int" where
  "digitsValue ds = foldl (\<lambda>a c. 10 * a + (int (byte c) - int (byte (CHR ''0'')))) 0 ds"

definition ParseInt :: "string \<Rightarrow> 64 word" where
  "ParseInt s =
     (let neg = (s \<noteq> [] \<and> hd s = CHR ''-'');
          ds = (if s \<noteq> [] \<and> (hd s = CHR ''+'' \<or> hd s = CHR ''-'') then tl s else s)
      in if ds = [] \<or> \<not> list_all isDigit ds then 0
         else if \<not> neg \<and> digitsValue ds \<ge> 2 ^ 63 then word_of_int (2 ^ 63 - 1)
         else if neg \<and> digitsValue ds > 2 ^ 63 then word_of_int (- (2 ^ 63))
         else if neg then word_of_int (- digitsValue ds)
         else word_of_int (digitsValue ds))"

text \<open>\<open>val, _ := strconv.ParseFloat(s, 64)\<close>: the float the lexeme denotes, kept as the lexeme.\<close>

definition ParseFloat :: "string \<Rightarrow> float64" where
  "ParseFloat s = Float64 s"

section \<open>The parser\<close>

record parser =
  lexer :: lexer
  cur :: token
  peek :: token

definition p_nextToken :: "parser \<Rightarrow> parser" where
  "p_nextToken p = (case nextToken (lexer p) of (t, l') \<Rightarrow> p\<lparr>lexer := l', cur := peek p, peek := t\<rparr>)"

definition zeroToken :: token where
  "zeroToken = \<lparr>tok_typ = tokenEOF, tok_value = [], tok_pos = 0\<rparr>"

definition newParser :: "lexer \<Rightarrow> parser" where
  "newParser l = p_nextToken (p_nextToken \<lparr>lexer = l, cur = zeroToken, peek = zeroToken\<rparr>)"

text \<open>\<open>obj[key] = value\<close>.\<close>

fun mapAssign :: "(string \<times> Value) list \<Rightarrow> string \<Rightarrow> Value \<Rightarrow> (string \<times> Value) list" where
  "mapAssign [] k v = [(k, v)]"
| "mapAssign ((k', v') # m) k v = (if k' = k then (k, v) # m else (k', v') # mapAssign m k v)"

definition isAllWhitespace :: "string \<Rightarrow> bool" where
  "isAllWhitespace s = list_all isSpace s"

definition cur_is :: "parser \<Rightarrow> tokenType \<Rightarrow> bool" where
  "cur_is p t = (tok_typ (cur p) = t)"

definition skipComma :: "parser \<Rightarrow> parser" where
  "skipComma p = (if cur_is p tokenComma then p_nextToken p else p)"

definition containsChar :: "string \<Rightarrow> char \<Rightarrow> bool" where
  "containsChar s c = (c \<in> set s)"

definition arraySkipSize :: "parser \<Rightarrow> parser" where
  "arraySkipSize p = (if cur_is p tokenNumber then p_nextToken p else p)"

definition arraySkipHeaderEnd :: "parser \<Rightarrow> parser" where
  "arraySkipHeaderEnd p =
     (let p1 = (if cur_is p tokenRBrace then p_nextToken p else p)
      in if cur_is p1 tokenColon then p_nextToken p1 else p1)"

text \<open>One round of the loop of \<open>parseTableKeys\<close>.\<close>

definition tableKeysStep :: "parser \<Rightarrow> string list \<Rightarrow> string list \<times> parser" where
  "tableKeysStep p keys =
     (if cur_is p tokenIdentifier then (keys @ [tok_value (cur p)], skipComma (p_nextToken p))
      else if cur_is p tokenString then
        (keys @ [case Unquote (tok_value (cur p)) of Some k \<Rightarrow> k | None \<Rightarrow> []],
         skipComma (p_nextToken p))
      else (keys, skipComma p))"

fun parseTableKeys :: "nat \<Rightarrow> parser \<Rightarrow> string list \<Rightarrow> (string list \<times> parser) option" where
  "parseTableKeys 0 p keys = None"
| "parseTableKeys (Suc n) p keys =
     (if \<not> cur_is p tokenRBrace \<and> \<not> cur_is p tokenEOF then
        parseTableKeys n (snd (tableKeysStep p keys)) (fst (tableKeysStep p keys))
      else Some (keys, p))"

fun skipToClose :: "nat \<Rightarrow> parser \<Rightarrow> parser option" where
  "skipToClose 0 p = None"
| "skipToClose (Suc n) p =
     (if \<not> cur_is p tokenRBracket \<and> \<not> cur_is p tokenEOF then skipToClose n (p_nextToken p)
      else Some p)"

declare parseTableKeys.simps [simp del] skipToClose.simps [simp del]

definition unexpectedToken :: "token \<Rightarrow> error" where
  "unexpectedToken t =
     Errorf (''unexpected token '' @ fmt_d (int (tokenTypeNum (tok_typ t))) @ '' at position ''
             @ fmt_d (int (tok_pos t)))"

text \<open>The cases of \<open>parseValue\<close>'s switch that do not recurse.\<close>

definition parseScalar :: "parser \<Rightarrow> error + Value \<times> parser" where
  "parseScalar p =
     (if cur_is p tokenString then
        Inr (VString (case Unquote (tok_value (cur p)) of Some s \<Rightarrow> s | None \<Rightarrow> tok_value (cur p)),
             p_nextToken p)
      else if cur_is p tokenNumber then
        (if containsChar (tok_value (cur p)) (CHR ''.'') \<or> containsChar (tok_value (cur p)) (CHR ''e'')
            \<or> containsChar (tok_value (cur p)) (CHR ''E'')
         then Inr (VFloat (ParseFloat (tok_value (cur p))), p_nextToken p)
         else Inr (VInt (ParseInt (tok_value (cur p))), p_nextToken p))
      else if cur_is p tokenBoolean then Inr (VBool (tok_value (cur p) = ''true''), p_nextToken p)
      else if cur_is p tokenNull then Inr (VNull, p_nextToken p)
      else if cur_is p tokenIdentifier then Inr (VString (tok_value (cur p)), p_nextToken p)
      else Inl (unexpectedToken (cur p)))"

function (sequential) parseValue :: "nat \<Rightarrow> parser \<Rightarrow> (error + Value \<times> parser) option"
  and parseObject :: "nat \<Rightarrow> parser \<Rightarrow> (error + Value \<times> parser) option"
  and parseObjectLoop :: "nat \<Rightarrow> parser \<Rightarrow> (string \<times> Value) list \<Rightarrow> (error + Value \<times> parser) option"
  and parseArray :: "nat \<Rightarrow> parser \<Rightarrow> (error + Value \<times> parser) option"
  and parseArrayLoop :: "nat \<Rightarrow> parser \<Rightarrow> Value list \<Rightarrow> (error + Value \<times> parser) option"
  and parseTableFormat :: "nat \<Rightarrow> parser \<Rightarrow> string list \<Rightarrow> (error + Value \<times> parser) option"
  and parseTableRows :: "nat \<Rightarrow> parser \<Rightarrow> string list \<Rightarrow> Value list \<Rightarrow> (error + Value list \<times> parser) option"
  and parseTableRow :: "nat \<Rightarrow> parser \<Rightarrow> string list \<Rightarrow> nat \<Rightarrow> nat \<Rightarrow> (string \<times> Value) list
                         \<Rightarrow> (error + (string \<times> Value) list \<times> parser) option"
where
  "parseValue 0 p = None"
| "parseValue (Suc n) p =
     (if cur_is p tokenLBrace then parseObject n p
      else if cur_is p tokenLBracket then parseArray n p
      else Some (parseScalar p))"
| "parseObject 0 p = None"
| "parseObject (Suc n) p = parseObjectLoop n (p_nextToken p) []"
| "parseObjectLoop 0 p obj = None"
| "parseObjectLoop (Suc n) p obj =
     (if \<not> cur_is p tokenRBrace \<and> \<not> cur_is p tokenEOF then
        (if \<not> cur_is p tokenIdentifier \<and> \<not> cur_is p tokenString then
           Some (Inl (Errorf (''expected key at position '' @ fmt_d (int (tok_pos (cur p))))))
         else if \<not> cur_is (p_nextToken p) tokenColon then
           Some (Inl (Errorf (''expected colon at position ''
                              @ fmt_d (int (tok_pos (cur (p_nextToken p)))))))
         else
           (case parseValue n (p_nextToken (p_nextToken p)) of
              None \<Rightarrow> None
            | Some (Inl e) \<Rightarrow> Some (Inl e)
            | Some (Inr (v, p')) \<Rightarrow>
                parseObjectLoop n (skipComma p')
                  (mapAssign obj
                     (if cur_is p tokenString
                      then (case Unquote (tok_value (cur p)) of Some k \<Rightarrow> k | None \<Rightarrow> [])
                      else tok_value (cur p))
                     v)))
      else if \<not> cur_is p tokenRBrace then Some (Inl (Errorf ''unclosed object''))
      else Some (Inr (VObject obj, p_nextToken p)))"
| "parseArray 0 p = None"
| "parseArray (Suc n) p =
     (case (if cur_is (arraySkipSize (p_nextToken p)) tokenLBrace then
              (case parseTableKeys n (p_nextToken (arraySkipSize (p_nextToken p))) [] of
                 None \<Rightarrow> None
               | Some (tableKeys, p') \<Rightarrow> Some (tableKeys, arraySkipHeaderEnd p'))
            else Some ([], arraySkipSize (p_nextToken p))) of
        None \<Rightarrow> None
      | Some (tableKeys, p') \<Rightarrow>
          if length tableKeys > 0 then parseTableFormat n p' tableKeys
          else parseArrayLoop n p' [])"
| "parseArrayLoop 0 p arr = None"
| "parseArrayLoop (Suc n) p arr =
     (if \<not> cur_is p tokenRBracket \<and> \<not> cur_is p tokenEOF then
        (case parseValue n p of
           None \<Rightarrow> None
         | Some (Inl e) \<Rightarrow> Some (Inl e)
         | Some (Inr (v, p')) \<Rightarrow> parseArrayLoop n (skipComma p') (arr @ [v]))
      else if \<not> cur_is p tokenRBracket then Some (Inl (Errorf ''unclosed array''))
      else Some (Inr (VArray arr, p_nextToken p)))"
| "parseTableFormat 0 p keys = None"
| "parseTableFormat (Suc n) p keys =
     (case parseTableRows n p keys [] of
        None \<Rightarrow> None
      | Some (Inl e) \<Rightarrow> Some (Inl e)
      | Some (Inr (arr, p')) \<Rightarrow>
          (case skipToClose n p' of
             None \<Rightarrow> None
           | Some p'' \<Rightarrow>
               Some (Inr (VArray arr,
                          if cur_is p'' tokenRBracket then p_nextToken p'' else p''))))"
| "parseTableRows 0 p keys arr = None"
| "parseTableRows (Suc n) p keys arr =
     (if \<not> cur_is p tokenRBracket \<and> \<not> cur_is p tokenEOF then
        (if cur_is p tokenEOF then Some (Inr (arr, p))
         else if cur_is p tokenIdentifier \<and> isAllWhitespace (tok_value (cur p)) then
           parseTableRows n (p_nextToken p) keys arr
         else
           (case parseTableRow n p keys 0 (length keys) [] of
              None \<Rightarrow> None
            | Some (Inl e) \<Rightarrow> Some (Inl e)
            | Some (Inr (obj, p')) \<Rightarrow>
                parseTableRows n p' keys (if length obj > 0 then arr @ [VObject obj] else arr)))
      else Some (Inr (arr, p)))"
| "parseTableRow 0 p keys i len obj = None"
| "parseTableRow (Suc n) p [] i len obj = Some (Inr (obj, p))"
| "parseTableRow (Suc n) p (key # keys) i len obj =
     (if cur_is p tokenEOF then Some (Inr (obj, p))
      else
        (case parseValue n p of
           None \<Rightarrow> None
         | Some (Inl e) \<Rightarrow> Some (Inl e)
         | Some (Inr (v, p')) \<Rightarrow>
             parseTableRow n
               (if int i < int len - 1 \<and> cur_is p' tokenComma then p_nextToken p' else p')
               keys (Suc i) len (mapAssign obj key v)))"

  by pat_completeness auto
termination
  by (relation "measure (\<lambda>x. case x of
        Inl (Inl (Inl (n, _))) \<Rightarrow> n
      | Inl (Inl (Inr (n, _))) \<Rightarrow> n
      | Inl (Inr (Inl (n, _))) \<Rightarrow> n
      | Inl (Inr (Inr (n, _))) \<Rightarrow> n
      | Inr (Inl (Inl (n, _))) \<Rightarrow> n
      | Inr (Inl (Inr (n, _))) \<Rightarrow> n
      | Inr (Inr (Inl (n, _))) \<Rightarrow> n
      | Inr (Inr (Inr (n, _))) \<Rightarrow> n)") auto

declare parseValue.simps [simp del] parseObject.simps [simp del] parseObjectLoop.simps [simp del]
  parseArray.simps [simp del] parseArrayLoop.simps [simp del] parseTableFormat.simps [simp del]
  parseTableRows.simps [simp del] parseTableRow.simps [simp del]

definition Decode :: "nat \<Rightarrow> string \<Rightarrow> (error + Value) option" where
  "Decode fuel toonStr =
     (case parseValue fuel (newParser (newLexer toonStr)) of
        None \<Rightarrow> None
      | Some (Inl e) \<Rightarrow> Some (Inl e)
      | Some (Inr (v, p)) \<Rightarrow> Some (Inr v))"

section \<open>Properties of the encoder\<close>

text \<open>
  Claim C8. Under the default options, the array of the two objects
  \<open>{id: 1, name: "Alice"}\<close> and \<open>{id: 2, name: "Bob"}\<close> is encoded as a table: the header
  \<open>[ 2 {id, name}:\<close>, one row per object indented by two spaces, and the closing bracket
  on a line of its own.
\<close>

theorem C8_encode_tabular_example:
  \<open>Encode (VArray [VObject [(''id'', VInt 1), (''name'', VString ''Alice'')],
                   VObject [(''id'', VInt 2), (''name'', VString ''Bob'')]]) DefaultOptions
   = Inr ''[ 2 {id, name}:\<newline>  1, "Alice"\<newline>  2, "Bob"\<newline>]''\<close>
  by code_simp

lemma kf_writeIndent: "writeIndent i (opts\<lparr>KeyFolding := b\<rparr>) = writeIndent i opts"
  by (simp add: writeIndent_def)

lemma kf_encodeRows:
  "encodeRows xs ks i n (opts\<lparr>KeyFolding := b\<rparr>) ind = encodeRows xs ks i n opts ind"
  by (induction xs arbitrary: i) (simp_all add: kf_writeIndent split: sum.splits)

lemma kf_arrayOpen: "arrayOpen xs (opts\<lparr>KeyFolding := b\<rparr>) = arrayOpen xs opts"
  by (simp add: arrayOpen_def)

lemma kf_encode:
  "encodeValue v opts ind = encodeValue v (opts\<lparr>KeyFolding := b\<rparr>) ind"
  "encodeMap m opts ind = encodeMap m (opts\<lparr>KeyFolding := b\<rparr>) ind"
  "encodeMapEntries m ks i opts ind = encodeMapEntries m ks i (opts\<lparr>KeyFolding := b\<rparr>) ind"
  "encodeArray xs opts ind = encodeArray xs (opts\<lparr>KeyFolding := b\<rparr>) ind"
  "encodeArrayItems xs i n opts ind = encodeArrayItems xs i n (opts\<lparr>KeyFolding := b\<rparr>) ind"
proof (induction v opts ind and m opts ind and m ks i opts ind and xs opts ind and xs i n opts ind
       rule: encodeValue_encodeMap_encodeMapEntries_encodeArray_encodeArrayItems.induct)
  case (8 m options indent)
  then show ?case by (simp add: kf_writeIndent split: sum.splits)
next
  case (10 m k ks i options indent)
  then show ?case by (simp add: kf_writeIndent split: sum.splits)
next
  case (11 elems options indent)
  then show ?case by (simp add: kf_writeIndent kf_encodeRows kf_arrayOpen split: sum.splits)
next
  case (13 item items i n options indent)
  then show ?case by (simp add: kf_writeIndent split: sum.splits)
qed simp_all

text \<open>
  Claim C9. The encoder never reads \<open>KeyFolding\<close>: for every value and every options
  record, the run with the flag set and the run with the flag cleared return the same
  result (the same text, or the same failure).
\<close>

theorem C9_key_folding_noninterference:
  "Encode v (opts\<lparr>KeyFolding := True\<rparr>) = Encode v (opts\<lparr>KeyFolding := False\<rparr>)"
  using kf_encode(1)[of v opts 0 True] kf_encode(1)[of v opts 0 False]
  by (simp add: Encode_def)

text \<open>
  Claim C4. A \<open>nil\<close> in a cell of a table is written as the literal \<open>null\<close>, as the claim
  says: \<open>formatValue\<close> has a case for it. A \<open>nil\<close> that is the value of an object field is
  not written as the empty text the claim describes: \<open>encodeValue\<close> has no case for it. It
  finds the kind \<open>Invalid\<close>, falls to the default case of its switch and calls
  \<open>CanInterface\<close> on the zero \<open>reflect.Value\<close>, which panics, for every options record and
  every depth. So the object \<open>{a: nil}\<close> (what \<open>EncodeJSON\<close> passes on for \<open>{"a": null}\<close>)
  has no encoding, while \<open>Encode\<close> itself returns the empty text for a \<open>nil\<close> at the top.
\<close>

theorem C4_null_field_panics:
  \<open>encodeValue VNull opts ind
     = Inl (Panic ''reflect: call of reflect.Value.CanInterface on zero Value'')
   \<and> Encode (VObject [(''a'', VNull)]) DefaultOptions
     = Inl (Panic ''reflect: call of reflect.Value.CanInterface on zero Value'')
   \<and> Encode (VObject [(''a'', VNull)]) DefaultOptions \<noteq> Inr ''{\<newline>  a: \<newline>}''
   \<and> Encode VNull opts = Inr []
   \<and> formatValue VNull = ''null''
   \<and> Encode (VArray [VObject [(''a'', VNull)]]) DefaultOptions
     = Inr ''[ 1 {a}:\<newline>  null\<newline>]''\<close>
proof -
  have 1: "encodeValue VNull opts ind
             = Inl (Panic ''reflect: call of reflect.Value.CanInterface on zero Value'')"
    by simp
  have 2: "Encode (VObject [(''a'', VNull)]) DefaultOptions
             = Inl (Panic ''reflect: call of reflect.Value.CanInterface on zero Value'')"
    by code_simp
  have 3: "Encode VNull opts = Inr []" by (simp add: Encode_def)
  have 4: "Encode (VArray [VObject [(''a'', VNull)]]) DefaultOptions
             = Inr ''[ 1 {a}:\<newline>  null\<newline>]''"
    by code_simp
  from 1 2 3 4 show ?thesis by simp
qed

section \<open>Properties of the tabular eligibility detector\<close>

text \<open>The key set of an element: the keys of a map, and no key for any other value.\<close>

definition keySet :: "Value \<Rightarrow> string set" where
  "keySet v = fst ` set (fst (asMap v))"

lemma mapHas_keySet: "mapHas (fst (asMap v)) k \<longleftrightarrow> k \<in> keySet v"
  by (auto simp: mapHas_def keySet_def map_of_eq_None_iff)

lemma set_mapKeys: "set (mapKeys (fst (asMap v))) = keySet v"
  by (simp add: mapKeys_def keySet_def)

lemma set_commonKeysLoop:
  "set (commonKeysLoop cs items) = set cs \<inter> (\<Inter>item \<in> set items. keySet item)"
proof (induction items arbitrary: cs)
  case Nil
  show ?case by simp
next
  case (Cons item items)
  let ?cs' = "filter (\<lambda>k. mapHas (fst (asMap item)) k) cs"
  show ?case
  proof (cases "?cs' = []")
    case True
    then have "set cs \<inter> keySet item = {}"
      by (auto simp: filter_empty_conv mapHas_keySet)
    with True show ?thesis by (auto simp: Let_def)
  next
    case False
    then have "commonKeysLoop cs (item # items) = commonKeysLoop ?cs' items"
      by (simp add: Let_def)
    with Cons.IH[of ?cs'] show ?thesis by (auto simp: mapHas_keySet)
  qed
qed

lemma distinct_commonKeysLoop: "distinct cs \<Longrightarrow> distinct (commonKeysLoop cs items)"
  by (induction items arbitrary: cs) (auto simp: Let_def)

lemma set_getCommonKeys:
  "xs \<noteq> [] \<Longrightarrow> set (getCommonKeys xs) = (\<Inter>x \<in> set xs. keySet x)"
  by (cases xs) (auto simp: set_commonKeysLoop set_mapKeys)

lemma strict_sorted_getCommonKeys: "sorted_wrt (<) (getCommonKeys xs)"
  by (cases xs) (auto simp: strict_sorted_iff distinct_commonKeysLoop mapKeys_def)

lemma snd_asMap: "snd (asMap x) \<longleftrightarrow> (\<exists>m. x = VObject m)"
  by (cases x) auto

text \<open>
  Claim C5. \<open>canUseTabularFormat\<close> accepts a sequence exactly when it is not empty, every
  element is a \<open>map[string]interface{}\<close> and the key sets of the elements have a key in
  common; \<open>getCommonKeys\<close> then returns the intersection of the key sets (not their union)
  in strictly ascending order.
\<close>

theorem C5_tabular_eligibility:
  "(canUseTabularFormat xs \<longleftrightarrow>
      xs \<noteq> [] \<and> (\<forall>x \<in> set xs. \<exists>m. x = VObject m) \<and> (\<Inter>x \<in> set xs. keySet x) \<noteq> {})
   \<and> (canUseTabularFormat xs \<longrightarrow>
        set (getCommonKeys xs) = (\<Inter>x \<in> set xs. keySet x)
        \<and> sorted_wrt (<) (getCommonKeys xs))"
proof (cases "xs = []")
  case True
  then show ?thesis by (simp add: canUseTabularFormat_def)
next
  case False
  have "length (getCommonKeys xs) > 0 \<longleftrightarrow> (\<Inter>x \<in> set xs. keySet x) \<noteq> {}"
    using set_getCommonKeys[OF False] by (metis length_greater_0_conv set_empty)
  with False show ?thesis
    by (auto simp: canUseTabularFormat_def list_all_iff snd_asMap set_getCommonKeys
        strict_sorted_getCommonKeys)
qed

theorem C5_tabular_eligibility_witness:
  "canUseTabularFormat
     [VObject [(''name'', VString ''A''), (''id'', VInt 1), (''x'', VNull)],
      VObject [(''id'', VInt 2), (''y'', VNull), (''name'', VString ''B'')]]
   \<and> getCommonKeys
     [VObject [(''name'', VString ''A''), (''id'', VInt 1), (''x'', VNull)],
      VObject [(''id'', VInt 2), (''y'', VNull), (''name'', VString ''B'')]] = [''id'', ''name'']
   \<and> (\<Inter>x \<in> set [VObject [(''name'', VString ''A''), (''id'', VInt 1), (''x'', VNull)],
      VObject [(''id'', VInt 2), (''y'', VNull), (''name'', VString ''B'')]]. keySet x) = {''id'', ''name''}"
proof -
  let ?xs = "[VObject [(''name'', VString ''A''), (''id'', VInt 1), (''x'', VNull)],
      VObject [(''id'', VInt 2), (''y'', VNull), (''name'', VString ''B'')]]"
  have g: "getCommonKeys ?xs = [''id'', ''name'']" by code_simp
  have c: "canUseTabularFormat ?xs" by code_simp
  from C5_tabular_eligibility[of ?xs] c have "set (getCommonKeys ?xs) = (\<Inter>x \<in> set ?xs. keySet x)"
    by blast
  with g c show ?thesis by auto
qed

section \<open>Properties of the lexer\<close>

text \<open>The lexer never changes its input.\<close>

lemma input_backup [simp]: "input (backup l) = input l"
  by (simp add: backup_def)

lemma input_nextRune [simp]: "input (snd (nextRune l)) = input l"
  by (simp add: nextRune_snd)

lemma input_nextRune': "nextRune l = (r, l') \<Longrightarrow> input l' = input l"
  using input_nextRune[of l] by simp

lemma input_skipWhitespace [simp]: "input (skipWhitespace l) = input l"
proof (induction l rule: skipWhitespace.induct)
  case (1 l)
  show ?case
  proof (cases "nextRune l")
    case (Pair r l')
    with 1 input_nextRune'[OF Pair] show ?thesis
      by (subst skipWhitespace.simps) (auto split: option.splits)
  qed
qed

subsection \<open>A character that starts no token\<close>

text \<open>
  Claim C7. For every input and every state of the lexer, \<open>nextToken\<close> first skips the white
  space and then reads one character. When that character, the one at the position where
  \<open>skipWhitespace\<close> stops, is not one of \<open>{ } [ ] : ,\<close>, not a quote, not a digit or \<open>-\<close> and
  not a letter or underscore, the token returned has the type \<open>tokenEOF\<close>, the type of the
  end of the input, and stands at that character: the lexer reports no error, and a reader
  of the tokens cannot tell the character from the end of the input. (The character at
  that position is the one \<open>nextToken\<close> dispatches on, whatever white space came before.)
\<close>

theorem C7_unrecognised_char_yields_EOF:
  assumes "pos (skipWhitespace l) < length (input l)"
    and "c = input l ! pos (skipWhitespace l)"
    and "c \<notin> {CHR ''{'', CHR ''}'', CHR ''['', CHR '']'', CHR '':'', CHR '',''}"
    and "c \<noteq> DQ" and "c \<noteq> CHR ''-''" and "\<not> isDigit c" and "\<not> isAlpha c"
  shows "tok_typ (fst (nextToken l)) = tokenEOF
         \<and> tok_pos (fst (nextToken l)) = pos (skipWhitespace l)"
proof -
  let ?l1 = "skipWhitespace l"
  let ?l = "?l1\<lparr>start := pos ?l1\<rparr>"
  have sk: "input ?l1 = input l" by simp
  then obtain l' where nr: "nextRune ?l = (Some c, l')" and st: "start l' = pos ?l1"
    using assms(1,2) by (auto simp: nextRune_def Let_def)
  from sk assms(1) have "\<not> pos ?l \<ge> length (input ?l)" by simp
  with nr st assms(3-) show ?thesis
    by (simp add: nextToken_def Let_def emit_def)
qed

text \<open>
  In \<open>[1, @ 2]\<close>, after the comma (the lexer stands on the blank at position 3), the next
  token is the end of the input, at the position 4 of \<open>@\<close>.
\<close>

theorem C7_unrecognised_char_yields_EOF_witness:
  "pos (skipWhitespace \<lparr>input = ''[1, @ 2]'', pos = 3, start = 2, width = 1\<rparr>) = 4
   \<and> tok_typ (fst (nextToken \<lparr>input = ''[1, @ 2]'', pos = 3, start = 2, width = 1\<rparr>)) = tokenEOF
   \<and> tok_pos (fst (nextToken \<lparr>input = ''[1, @ 2]'', pos = 3, start = 2, width = 1\<rparr>)) = 4"
proof -
  let ?l = "\<lparr>input = ''[1, @ 2]'', pos = 3, start = 2, width = 1\<rparr>"
  have 0: "pos (skipWhitespace ?l) = 4" by code_simp
  have 1: "pos (skipWhitespace ?l) < length (input ?l)" by (subst 0) simp
  have 2: "CHR ''@'' = input ?l ! pos (skipWhitespace ?l)" by (subst 0) simp
  have 3: "CHR ''@'' \<notin> {CHR ''{'', CHR ''}'', CHR ''['', CHR '']'', CHR '':'', CHR '',''}" by simp
  have 4: "CHR ''@'' \<noteq> DQ" "CHR ''@'' \<noteq> CHR ''-''" by (simp_all add: DQ_def)
  have 5: "\<not> isDigit (CHR ''@'')" "\<not> isAlpha (CHR ''@'')"
    by (simp_all add: isDigit_def isAlpha_def byte_def)
  from C7_unrecognised_char_yields_EOF[OF 1 2 3 4 5] 0 show ?thesis by simp
qed

section \<open>Properties of the parser\<close>

text \<open>More fuel never changes a result.\<close>

lemma parseTableKeys_mono:
  "parseTableKeys n p ks = Some r \<Longrightarrow> n \<le> m \<Longrightarrow> parseTableKeys m p ks = Some r"
proof (induction n arbitrary: m p ks)
  case 0
  then show ?case by (simp add: parseTableKeys.simps)
next
  case (Suc n)
  then obtain m' where m: "m = Suc m'" "n \<le> m'" by (cases m) auto
  from Suc.prems(1) Suc.IH[OF _ m(2)] show ?case
    unfolding m(1) by (auto simp: parseTableKeys.simps split: if_splits)
qed

lemma skipToClose_mono:
  "skipToClose n p = Some r \<Longrightarrow> n \<le> m \<Longrightarrow> skipToClose m p = Some r"
proof (induction n arbitrary: m p)
  case 0
  then show ?case by (simp add: skipToClose.simps)
next
  case (Suc n)
  then obtain m' where m: "m = Suc m'" "n \<le> m'" by (cases m) auto
  from Suc.prems(1) Suc.IH[OF _ m(2)] show ?case
    unfolding m(1) by (auto simp: skipToClose.simps split: if_splits)
qed

lemma parseTableKeys_mono':
  "parseTableKeys n p ks \<noteq> None \<Longrightarrow> parseTableKeys (Suc n) p ks = parseTableKeys n p ks"
  using parseTableKeys_mono[of n p ks _ "Suc n"] by auto

lemma skipToClose_mono':
  "skipToClose n p \<noteq> None \<Longrightarrow> skipToClose (Suc n) p = skipToClose n p"
  using skipToClose_mono[of n p _ "Suc n"] by auto

lemma parse_mono_step:
  "(\<forall>p. parseValue n p \<noteq> None \<longrightarrow> parseValue (Suc n) p = parseValue n p)
   \<and> (\<forall>p. parseObject n p \<noteq> None \<longrightarrow> parseObject (Suc n) p = parseObject n p)
   \<and> (\<forall>p obj. parseObjectLoop n p obj \<noteq> None
          \<longrightarrow> parseObjectLoop (Suc n) p obj = parseObjectLoop n p obj)
   \<and> (\<forall>p. parseArray n p \<noteq> None \<longrightarrow> parseArray (Suc n) p = parseArray n p)
   \<and> (\<forall>p arr. parseArrayLoop n p arr \<noteq> None
          \<longrightarrow> parseArrayLoop (Suc n) p arr = parseArrayLoop n p arr)
   \<and> (\<forall>p keys. parseTableFormat n p keys \<noteq> None
          \<longrightarrow> parseTableFormat (Suc n) p keys = parseTableFormat n p keys)
   \<and> (\<forall>p keys arr. parseTableRows n p keys arr \<noteq> None
          \<longrightarrow> parseTableRows (Suc n) p keys arr = parseTableRows n p keys arr)
   \<and> (\<forall>p keys i len obj. parseTableRow n p keys i len obj \<noteq> None
          \<longrightarrow> parseTableRow (Suc n) p keys i len obj = parseTableRow n p keys i len obj)"
proof (induction n)
  case 0
  show ?case
    by (simp add: parseValue.simps parseObject.simps parseObjectLoop.simps parseArray.simps
        parseArrayLoop.simps parseTableFormat.simps parseTableRows.simps parseTableRow.simps)
next
  case (Suc n)
  then have pv: "\<And>p. parseValue n p \<noteq> None \<Longrightarrow> parseValue (Suc n) p = parseValue n p"
    and po: "\<And>p. parseObject n p \<noteq> None \<Longrightarrow> parseObject (Suc n) p = parseObject n p"
    and pol: "\<And>p obj. parseObjectLoop n p obj \<noteq> None
          \<Longrightarrow> parseObjectLoop (Suc n) p obj = parseObjectLoop n p obj"
    and pa: "\<And>p. parseArray n p \<noteq> None \<Longrightarrow> parseArray (Suc n) p = parseArray n p"
    and pal: "\<And>p arr. parseArrayLoop n p arr \<noteq> None
          \<Longrightarrow> parseArrayLoop (Suc n) p arr = parseArrayLoop n p arr"
    and ptf: "\<And>p keys. parseTableFormat n p keys \<noteq> None
          \<Longrightarrow> parseTableFormat (Suc n) p keys = parseTableFormat n p keys"
    and ptrs: "\<And>p keys arr. parseTableRows n p keys arr \<noteq> None
          \<Longrightarrow> parseTableRows (Suc n) p keys arr = parseTableRows n p keys arr"
    and ptr: "\<And>p keys i len obj. parseTableRow n p keys i len obj \<noteq> None
          \<Longrightarrow> parseTableRow (Suc n) p keys i len obj = parseTableRow n p keys i len obj"
    by simp_all
  have 1: "parseValue (Suc (Suc n)) p = parseValue (Suc n) p" if "parseValue (Suc n) p \<noteq> None" for p
    using that
    apply (simp only: parseValue.simps(2)[of n])
    apply (simp only: parseValue.simps(2)[of "Suc n"])
    apply (auto simp: po pa split: if_splits)
    done
  have 2: "parseObject (Suc (Suc n)) p = parseObject (Suc n) p" if "parseObject (Suc n) p \<noteq> None" for p
    using that
    apply (simp only: parseObject.simps(2)[of n])
    apply (simp only: parseObject.simps(2)[of "Suc n"])
    apply (auto simp: pol)
    done
  have 3: "parseObjectLoop (Suc (Suc n)) p obj = parseObjectLoop (Suc n) p obj"
    if "parseObjectLoop (Suc n) p obj \<noteq> None" for p obj
    using that
    apply (simp only: parseObjectLoop.simps(2)[of n])
    apply (simp only: parseObjectLoop.simps(2)[of "Suc n"])
    apply (auto simp: pv pol split: if_splits option.splits sum.splits)
    done
  have 4: "parseArray (Suc (Suc n)) p = parseArray (Suc n) p" if "parseArray (Suc n) p \<noteq> None" for p
    using that
    apply (simp only: parseArray.simps(2)[of n])
    apply (simp only: parseArray.simps(2)[of "Suc n"])
    apply (auto simp: ptf pal parseTableKeys_mono' split: if_splits option.splits)
    done
  have 5: "parseArrayLoop (Suc (Suc n)) p arr = parseArrayLoop (Suc n) p arr"
    if "parseArrayLoop (Suc n) p arr \<noteq> None" for p arr
    using that
    apply (simp only: parseArrayLoop.simps(2)[of n])
    apply (simp only: parseArrayLoop.simps(2)[of "Suc n"])
    apply (auto simp: pv pal split: if_splits option.splits sum.splits)
    done
  have 6: "parseTableFormat (Suc (Suc n)) p keys = parseTableFormat (Suc n) p keys"
    if "parseTableFormat (Suc n) p keys \<noteq> None" for p keys
    using that
    apply (simp only: parseTableFormat.simps(2)[of n])
    apply (simp only: parseTableFormat.simps(2)[of "Suc n"])
    apply (auto simp: ptrs skipToClose_mono' split: if_splits option.splits sum.splits)
    done
  have 7: "parseTableRows (Suc (Suc n)) p keys arr = parseTableRows (Suc n) p keys arr"
    if "parseTableRows (Suc n) p keys arr \<noteq> None" for p keys arr
    using that
    apply (simp only: parseTableRows.simps(2)[of n])
    apply (simp only: parseTableRows.simps(2)[of "Suc n"])
    apply (auto simp: ptrs ptr split: if_splits option.splits sum.splits)
    done
  have 8: "parseTableRow (Suc (Suc n)) p keys i len obj = parseTableRow (Suc n) p keys i len obj"
    if "parseTableRow (Suc n) p keys i len obj \<noteq> None" for p keys i len obj
  proof (cases keys)
    case Nil
    then show ?thesis by (simp add: parseTableRow.simps)
  next
    case (Cons k ks)
    with that show ?thesis
      apply (simp only: parseTableRow.simps(3)[of n])
      apply (simp only: parseTableRow.simps(3)[of "Suc n"])
      apply (auto simp: pv ptr split: if_splits option.splits sum.splits)
      done
  qed
  from 1 2 3 4 5 6 7 8 show ?case by simp
qed

lemma parseValue_mono:
  assumes "parseValue n p = Some r" "n \<le> m"
  shows "parseValue m p = Some r"
  using assms(2,1)
proof (induction m rule: dec_induct)
  case base
  then show ?case by simp
next
  case (step k)
  with parse_mono_step[of k] show ?case by (metis option.distinct(1))
qed

lemma Decode_mono:
  assumes "Decode n s = Some r" "n \<le> m"
  shows "Decode m s = Some r"
proof -
  from assms(1) obtain r' where "parseValue n (newParser (newLexer s)) = Some r'"
    by (auto simp: Decode_def split: option.splits)
  from parseValue_mono[OF this assms(2)] this assms(1) show ?thesis
    by (simp add: Decode_def)
qed

lemma parseTableKeys_stuck:
  assumes "\<not> cur_is p tokenRBrace" "\<not> cur_is p tokenEOF" "\<not> cur_is p tokenIdentifier"
    "\<not> cur_is p tokenString" "\<not> cur_is p tokenComma"
  shows "parseTableKeys n p ks = None"
proof (induction n)
  case 0
  show ?case by (simp add: parseTableKeys.simps)
next
  case (Suc n)
  from assms have "tableKeysStep p ks = (ks, p)"
    by (simp add: tableKeysStep_def skipComma_def)
  with assms Suc show ?case by (simp add: parseTableKeys.simps)
qed

text \<open>
  Claim C2 asks that \<open>Decode\<close> return on every input. It does not return on \<open>[{1}]\<close>:
  after \<open>[\<close> and \<open>{\<close> the loop of \<open>parseTableKeys\<close> stands at a number, which is neither
  \<open>}\<close> nor the end of the input and is neither an identifier, a string nor a comma, so a
  round of the loop consumes nothing and the loop never ends. In the model no amount of
  fuel gives a result.
\<close>

theorem C2_decode_never_returns:
  "Decode n ''[{1}]'' = None"
proof -
  let ?p0 = "newParser (newLexer ''[{1}]'')"
  let ?p3 = "p_nextToken (arraySkipSize (p_nextToken ?p0))"
  have a: "tok_typ (cur ?p0) = tokenLBracket" by code_simp
  have b: "tok_typ (cur (arraySkipSize (p_nextToken ?p0))) = tokenLBrace" by code_simp
  have c: "tok_typ (cur ?p3) = tokenNumber" by code_simp
  have stuck: "parseTableKeys k ?p3 [] = None" for k
    by (rule parseTableKeys_stuck) (simp_all add: cur_is_def c)
  have arr: "parseArray k ?p0 = None" for k
    by (cases k) (simp_all add: parseArray.simps cur_is_def b stuck)
  have "parseValue n ?p0 = None"
    by (cases n) (simp_all add: parseValue.simps cur_is_def a arr)
  then show ?thesis by (simp add: Decode_def)
qed

text \<open>
  Claim C6 has an object start with \<open>{\<close> right after \<open>key: \<close>. \<open>encodeMap\<close> writes the
  object's own indentation before \<open>{\<close>, also when the object is the value of a key: the
  inner object of \<open>{a: {b: 1}}\<close> starts two spaces after \<open>a: \<close>.
\<close>

theorem C6_nested_object_indent:
  \<open>Encode (VObject [(''a'', VObject [(''b'', VInt 1)])]) DefaultOptions
   = Inr ''{\<newline>  a:   {\<newline>    b: 1\<newline>  }\<newline>}''\<close>
  by code_simp

text \<open>
  Claim C10, as it is stated, at the text \<open>[1, 2, 3]\<close>: decoding does not yield the array
  of 2 and 3. The number 1 is skipped as a size, the comma after it stands where a value is
  expected, and \<open>parseValue\<close> refuses it.
\<close>

theorem C10_comma_after_size_counterexample:
  "Decode 20 ''[1, 2, 3]'' = Some (Inl (Errorf ''unexpected token 6 at position 2''))
   \<and> Decode 20 ''[1, 2, 3]'' \<noteq> Some (Inr (VArray [VInt 2, VInt 3]))"
  by code_simp

text \<open>
  Claim C10, amended. When the token after \<open>[\<close> is a number, \<open>parseArray\<close> skips it,
  whether or not it was written as a size. If no \<open>{\<close> follows, the elements of the array
  are read from the token after the number, so the number is not among them; if a comma
  follows, decoding fails with the error of an unexpected token at that comma.
\<close>

theorem C10_array_size_skip:
  assumes "cur_is (p_nextToken p) tokenNumber"
  shows "(\<not> cur_is (p_nextToken (p_nextToken p)) tokenLBrace \<longrightarrow>
            parseArray (Suc n) p = parseArrayLoop n (p_nextToken (p_nextToken p)) [])
         \<and> (cur_is (p_nextToken (p_nextToken p)) tokenComma \<longrightarrow>
            parseArray (Suc (Suc (Suc n))) p
              = Some (Inl (unexpectedToken (cur (p_nextToken (p_nextToken p))))))"
proof -
  let ?p2 = "p_nextToken (p_nextToken p)"
  from assms have sk: "arraySkipSize (p_nextToken p) = ?p2"
    by (simp add: arraySkipSize_def)
  have 1: "parseArray (Suc k) p = parseArrayLoop k ?p2 []" if "\<not> cur_is ?p2 tokenLBrace" for k
    using that by (simp add: parseArray.simps sk)
  have 2: "parseArray (Suc (Suc (Suc n))) p = Some (Inl (unexpectedToken (cur ?p2)))"
    if c: "cur_is ?p2 tokenComma"
  proof -
    from c have nb: "\<not> cur_is ?p2 tokenLBrace" "\<not> cur_is ?p2 tokenRBracket" "\<not> cur_is ?p2 tokenEOF"
      "\<not> cur_is ?p2 tokenLBracket"
      by (simp_all add: cur_is_def)
    from c have sc: "parseScalar ?p2 = Inl (unexpectedToken (cur ?p2))"
      by (simp add: parseScalar_def cur_is_def)
    from nb sc show ?thesis
      by (simp add: 1 parseArrayLoop.simps parseValue.simps)
  qed
  from 1 2 show ?thesis by blast
qed

theorem C10_array_size_skip_witness:
  "Decode 20 ''[1 2 3]'' = Some (Inr (VArray [VInt 2, VInt 3]))
   \<and> parseArray (Suc (Suc (Suc 0))) (newParser (newLexer ''[1, 2, 3]''))
       = Some (Inl (Errorf ''unexpected token 6 at position 2''))
   \<and> parseArray (Suc 10) (newParser (newLexer ''[1 2 3]''))
       = parseArrayLoop 10 (p_nextToken (p_nextToken (newParser (newLexer ''[1 2 3]'')))) []"
proof -
  let ?p = "newParser (newLexer ''[1, 2, 3]'')"
  let ?q = "newParser (newLexer ''[1 2 3]'')"
  have h: "cur_is (p_nextToken ?p) tokenNumber" by code_simp
  have c: "cur_is (p_nextToken (p_nextToken ?p)) tokenComma" by code_simp
  have u: "unexpectedToken (cur (p_nextToken (p_nextToken ?p))) = Errorf ''unexpected token 6 at position 2''"
    by code_simp
  have h': "cur_is (p_nextToken ?q) tokenNumber" by code_simp
  have nb: "\<not> cur_is (p_nextToken (p_nextToken ?q)) tokenLBrace" by code_simp
  have d: "Decode 20 ''[1 2 3]'' = Some (Inr (VArray [VInt 2, VInt 3]))" by code_simp
  from C10_array_size_skip[OF h, of 0] c u C10_array_size_skip[OF h', of 10] nb d
  show ?thesis by simp
qed

section \<open>Texts that end before a closing delimiter\<close>

text \<open>
  A text in which an object or an array is not closed is described by comparison with a
  complete text: its parser reads the same tokens as the parser of the complete text up
  to some token of the complete text, and the end of the input there.
\<close>



text \<open>
  The errors the parser returns at the end of the input: the two "unclosed" errors at the
  head of the loop of an object or of an array and, when the cut does not stand at a
  closing delimiter, the error of \<open>parseValue\<close> on the end-of-input token and the error of a
  missing colon there.
\<close>

definition eofErr :: "bool \<Rightarrow> error \<Rightarrow> bool" where
  "eofErr cl e =
     (e = Errorf ''unclosed object'' \<or> e = Errorf ''unclosed array''
      \<or> (\<not> cl \<and> (\<exists>t. tok_typ t = tokenEOF
                      \<and> (e = unexpectedToken t
                         \<or> e = Errorf (''expected colon at position '' @ fmt_d (int (tok_pos t)))))))"

text \<open>
  A run that has met the end of the input: it failed with one of these errors, or it
  returned with the parser standing at the end of the input (the functions of the table
  format return what they have read so far).
\<close>

definition stuck :: "bool \<Rightarrow> (error + 'a \<times> parser) option \<Rightarrow> bool" where
  "stuck cl r =
     (case r of None \<Rightarrow> False | Some (Inl e) \<Rightarrow> eofErr cl e
      | Some (Inr (x, q)) \<Rightarrow> cur_is q tokenEOF)"

text \<open>
  A run that failed with the error \<open>e0\<close>, or, when the cut is not at the last token, with
  another error of the end of the input, raised further inside.
\<close>

definition failsWith :: "bool \<Rightarrow> bool \<Rightarrow> error \<Rightarrow> (error + 'a \<times> parser) option \<Rightarrow> bool" where
  "failsWith cl lst e0 r = (\<exists>e. r = Some (Inl e) \<and> (e = e0 \<or> (\<not> lst \<and> eofErr cl e)))"





subsection \<open>The end of the input, and fuel\<close>


lemma eofErr_unclosed [simp]:
  "eofErr cl (Errorf ''unclosed object'')" "eofErr cl (Errorf ''unclosed array'')"
  by (simp_all add: eofErr_def)




















subsection \<open>The helpers of the parser on a cut text\<close>












subsection \<open>One round of each function of the parser\<close>






lemma failsWith_e0 [simp]: "failsWith cl lst e0 (Some (Inl e0))"
  by (simp add: failsWith_def)

lemma stuck_simps [simp]:
  "stuck cl (Some (Inl e)) = eofErr cl e"
  "stuck cl (Some (Inr (x, q))) = cur_is q tokenEOF"
  "stuck cl None = False"
  by (simp_all add: stuck_def)



















subsection \<open>Unclosed objects and arrays\<close>






end
